theory Spec2Isabelle
  imports Complex_Main "HOL-Library.Log_Nat" "HOL-Library.Multiset"
begin

section \<open>JavaScript numbers\<close>

text \<open>
  A JavaScript number is an IEEE-754 binary64 value. The finite ones are rationals, so
  \<open>Fin q\<close> carries the exact value of the double; the three special values are kept.
  The sign of zero is not represented: both accumulators of the progress loop start at
  \<open>+0\<close>, a sum that starts at \<open>+0\<close> is never \<open>-0\<close>, and \<open>toFixed\<close> prints both zeros
  alike, so nothing this program computes can tell the two zeros apart.
\<close>

datatype jsnum = Fin rat | PosInf | NegInf | NaN

definition pow2 :: "int \<Rightarrow> rat" where
  "pow2 e = (if 0 \<le> e then of_int (2 ^ nat e) else 1 / of_int (2 ^ nat (- e)))"

text \<open>\<open>ilog2 q\<close> is the binary exponent of a positive rational: \<open>2^(ilog2 q) \<le> q < 2^(ilog2 q + 1)\<close>.\<close>

definition ilog2 :: "rat \<Rightarrow> int" where
  "ilog2 q = (if 1 \<le> q then bitlen \<lfloor>q\<rfloor> - 1 else - bitlen (\<lceil>1 / q\<rceil> - 1))"

text \<open>Rounding to the nearest integer, a tie going to the even neighbour.\<close>

definition rnd_even :: "rat \<Rightarrow> int" where
  "rnd_even q =
     (let f = \<lfloor>q\<rfloor>; r = q - of_int f
      in if r < 1 / 2 then f else if 1 / 2 < r then f + 1 else if even f then f else f + 1)"

text \<open>
  \<open>fl q\<close> is the double nearest to the exact value \<open>q\<close> (round to nearest, ties to even):
  53 significant bits, the spacing never finer than \<open>2^-1074\<close> (subnormals), and
  \<open>Infinity\<close> once the rounded magnitude reaches \<open>2^1024\<close>.
\<close>

definition fl :: "rat \<Rightarrow> jsnum" where
  "fl q =
     (if q = 0 then Fin 0
      else
        let a = \<bar>q\<bar>;
            e = max (ilog2 a - 52) (- 1074);
            v = of_int (rnd_even (a / pow2 e)) * pow2 e
        in if of_int (2 ^ 1024) \<le> v then (if q < 0 then NegInf else PosInf)
           else Fin (if q < 0 then - v else v))"

text \<open>The operators \<open>+\<close>, \<open>/\<close> and \<open>*\<close> on numbers: the exact result, rounded once.\<close>

fun jadd :: "jsnum \<Rightarrow> jsnum \<Rightarrow> jsnum" where
  "jadd (Fin a) (Fin b) = fl (a + b)"
| "jadd NaN _ = NaN"
| "jadd _ NaN = NaN"
| "jadd PosInf NegInf = NaN"
| "jadd NegInf PosInf = NaN"
| "jadd PosInf _ = PosInf"
| "jadd _ PosInf = PosInf"
| "jadd NegInf _ = NegInf"
| "jadd _ NegInf = NegInf"

fun jdiv :: "jsnum \<Rightarrow> jsnum \<Rightarrow> jsnum" where
  "jdiv (Fin a) (Fin b) =
     (if b = 0 then (if a = 0 then NaN else if 0 < a then PosInf else NegInf)
      else fl (a / b))"
| "jdiv NaN _ = NaN"
| "jdiv _ NaN = NaN"
| "jdiv (Fin a) _ = Fin 0"
| "jdiv PosInf (Fin b) = (if 0 \<le> b then PosInf else NegInf)"
| "jdiv NegInf (Fin b) = (if 0 \<le> b then NegInf else PosInf)"
| "jdiv PosInf _ = NaN"
| "jdiv NegInf _ = NaN"

fun jmul :: "jsnum \<Rightarrow> jsnum \<Rightarrow> jsnum" where
  "jmul (Fin a) (Fin b) = fl (a * b)"
| "jmul NaN _ = NaN"
| "jmul _ NaN = NaN"
| "jmul PosInf (Fin b) = (if b = 0 then NaN else if 0 < b then PosInf else NegInf)"
| "jmul NegInf (Fin b) = (if b = 0 then NaN else if 0 < b then NegInf else PosInf)"
| "jmul (Fin a) PosInf = (if a = 0 then NaN else if 0 < a then PosInf else NegInf)"
| "jmul (Fin a) NegInf = (if a = 0 then NaN else if 0 < a then NegInf else PosInf)"
| "jmul PosInf PosInf = PosInf"
| "jmul NegInf NegInf = PosInf"
| "jmul PosInf NegInf = NegInf"
| "jmul NegInf PosInf = NegInf"

subsection \<open>\<open>Number.prototype.toFixed(2)\<close>\<close>

text \<open>
  The result of \<open>toFixed\<close> is a string. \<open>Lit s\<close> is the string \<open>s\<close>; for a magnitude of
  \<open>10^21\<close> or more \<open>toFixed\<close> hands over to the general number-to-string conversion,
  which is kept symbolic as \<open>NumberToString x\<close>.
\<close>

datatype jsstring = Lit string | NumberToString jsnum

definition digit_char :: "nat \<Rightarrow> char" where
  "digit_char d = ''0123456789'' ! d"

text \<open>The decimal digits of a non-negative integer.\<close>

function digits :: "int \<Rightarrow> string" where
  "digits n =
     (if n < 10 then [digit_char (nat n)]
      else digits (n div 10) @ [digit_char (nat (n mod 10))])"
  by pat_completeness auto
termination
  by (relation "measure nat") auto

declare digits.simps [simp del]

text \<open>
  ECMAScript, \<open>Number.prototype.toFixed\<close> with two fraction digits: a value that is not
  finite prints as its name; otherwise the sign is split off, \<open>n\<close> is the integer with
  \<open>n / 100\<close> nearest to the magnitude (the larger one on a tie), its digits are padded
  with zeros to three places at least, and the point goes before the last two.
\<close>

definition toFixed2 :: "jsnum \<Rightarrow> jsstring" where
  "toFixed2 x =
     (case x of
        NaN \<Rightarrow> Lit ''NaN''
      | PosInf \<Rightarrow> Lit ''Infinity''
      | NegInf \<Rightarrow> Lit ''-Infinity''
      | Fin q \<Rightarrow>
          if 10 ^ 21 \<le> \<bar>q\<bar> then NumberToString x
          else
            let n = \<lfloor>\<bar>q\<bar> * 100 + 1 / 2\<rfloor>;
                m = digits n;
                m = (if length m \<le> 2 then replicate (3 - length m) (CHR ''0'') @ m else m);
                k = length m
            in Lit ((if q < 0 then ''-'' else []) @ take (k - 2) m @ ''.'' @ drop (k - 2) m))"

section \<open>Tasks and the aggregation\<close>

text \<open>
  A task as the backend returns it: the fields of the data model, the weight a number.
\<close>

record task =
  task_id :: nat
  project_id :: nat
  name :: string
  status :: string
  weight :: jsnum

text \<open>
  The \<open>forEach\<close> loop of \<open>calculateProjectProgress\<close> (the same loop stands in
  \<open>calculateAndUpdateProjectProgress\<close> and \<open>calculateAndLogProjectProgress\<close>): one
  step updates the pair \<open>(totalWeight, completedWeight)\<close>.
\<close>

definition addTask :: "task \<Rightarrow> jsnum \<times> jsnum \<Rightarrow> jsnum \<times> jsnum" where
  "addTask t = (\<lambda>(totalWeight, completedWeight).
     (jadd totalWeight (weight t),
      if status t = ''done'' then jadd completedWeight (weight t) else completedWeight))"

definition sumWeights :: "task list \<Rightarrow> jsnum \<times> jsnum" where
  "sumWeights tasks = fold addTask tasks (Fin 0, Fin 0)"

text \<open>\<open>const completionProgress = (completedWeight / totalWeight) * 100\<close>\<close>

definition completionProgress :: "task list \<Rightarrow> jsnum" where
  "completionProgress tasks =
     (case sumWeights tasks of (totalWeight, completedWeight) \<Rightarrow>
        jmul (jdiv completedWeight totalWeight) (Fin 100))"

text \<open>
  The status rollup of \<open>updateProjectStatus\<close>: the default \<open>draft\<close>, \<open>every\<close> checked
  before \<open>some\<close>.
\<close>

definition projectStatus :: "task list \<Rightarrow> string" where
  "projectStatus tasks =
     (if list_all (\<lambda>t. status t = ''done'') tasks then ''done''
      else if list_ex (\<lambda>t. status t = ''in progress'') tasks then ''in progress''
      else ''draft'')"

text \<open>
  The progress formula in the words of the specification, over exact rational numbers:
  the sum of all weights, the sum of the weights of the tasks that are done, their
  quotient times 100; then rounded to two decimals. \<open>ratOf\<close> reads a finite number as
  the rational it is.
\<close>

definition ratOf :: "jsnum \<Rightarrow> rat" where
  "ratOf w = (case w of Fin q \<Rightarrow> q | _ \<Rightarrow> 0)"

definition exactPercent :: "task list \<Rightarrow> rat" where
  "exactPercent tasks =
     (let totalWeight = sum_list (map (\<lambda>t. ratOf (weight t)) tasks);
          completedWeight =
            sum_list (map (\<lambda>t. ratOf (weight t)) (filter (\<lambda>t. status t = ''done'') tasks))
      in completedWeight / totalWeight * 100)"

definition roundedExact :: "task list \<Rightarrow> jsstring" where
  "roundedExact tasks = toFixed2 (Fin (exactPercent tasks))"

text \<open>
  Weights that are natural numbers: \<open>isNat w\<close> holds when \<open>w\<close> is the number
  \<open>natWeight w\<close>, and \<open>totalNat\<close> is the exact sum of such weights.
\<close>

definition natWeight :: "jsnum \<Rightarrow> nat" where
  "natWeight w = (case w of Fin q \<Rightarrow> nat \<lfloor>q\<rfloor> | _ \<Rightarrow> 0)"

definition isNat :: "jsnum \<Rightarrow> bool" where
  "isNat w = (w = Fin (of_nat (natWeight w)))"

definition totalNat :: "task list \<Rightarrow> nat" where
  "totalNat ts = sum_list (map (\<lambda>t. natWeight (weight t)) ts)"

section \<open>Requests, replies and the event trace\<close>

text \<open>
  The backend is not part of the client: it is a parameter \<open>serve\<close>, a function from a
  request and the backend's state to a reply and the next state. A project id is
  \<open>number | null\<close> (\<open>currentProjectId\<close> starts as \<open>null\<close>), hence \<open>nat option\<close>.
\<close>

datatype request =
    GetTasks "nat option"
  | PutProgress "nat option" jsstring
  | PutStatus "nat option" string
  | PostTask "nat option" string string string
  | PutTask "nat option" string string string
  | PostProject string string jsnum
  | PutProject "nat option" string
  | GetProjects

text \<open>
  The parsed body of a reply, by what the code can observe of it: an array of objects;
  a falsy value (\<open>null\<close>, \<open>false\<close>, \<open>0\<close>, the empty string); a value that is not an
  array but has a \<open>length\<close> of \<open>0\<close>; any other value (an error object, say), on which
  \<open>forEach\<close> and \<open>every\<close> are not functions. The elements of an array are tasks of the
  data model. The project list of \<open>GET /api/projects\<close> is an array of objects as well;
  of a project the requests of the client depend on \<open>project.id\<close> only, which is the
  field \<open>task_id\<close> of the element. A reply with no parsable body makes
  \<open>response.json()\<close> reject.
\<close>

datatype json = Tasks "task list" | Falsy | LengthZero | Other

datatype reply = NetworkError | Response bool "json option"

text \<open>
  Everything the client does to the outside, in the order it happens. A console message
  or an alert is recorded by its fixed text, without the id and the error object that
  the code appends. \<open>LoadProjects\<close> marks the call \<open>loadProjects()\<close> that the handlers do
  not await: it runs as a task of its own, next to the caller's awaited chain.
\<close>

datatype event =
    Sent request
  | Received reply
  | ConsoleLog string
  | ConsoleError string
  | Alert string
  | ModalHide string
  | LoadProjects

record 'w sys =
  backend :: 'w
  events :: "event list"

definition emit :: "event \<Rightarrow> 'w sys \<Rightarrow> 'w sys" where
  "emit e s = s\<lparr>events := events s @ [e]\<rparr>"

text \<open>\<open>await fetch(...)\<close>: the request goes out, and the caller resumes with the reply.\<close>

definition fetch :: "(request \<Rightarrow> 'w \<Rightarrow> reply \<times> 'w) \<Rightarrow> request \<Rightarrow> 'w sys \<Rightarrow> reply \<times> 'w sys" where
  "fetch serve req s =
     (case serve req (backend s) of
        (r, w) \<Rightarrow> (r, s\<lparr>backend := w, events := events s @ [Sent req, Received r]\<rparr>))"

text \<open>
  The two lines every aggregation function starts with,
  \<open>const taskResponse = await fetch(...); const tasks = await taskResponse.json();\<close>
  \<open>None\<close> stands for the exception either of them throws.
\<close>

definition fetchTasks :: "(request \<Rightarrow> 'w \<Rightarrow> reply \<times> 'w) \<Rightarrow> nat option \<Rightarrow> 'w sys \<Rightarrow> json option \<times> 'w sys" where
  "fetchTasks serve projectId s =
     (case fetch serve (GetTasks projectId) s of
        (NetworkError, s1) \<Rightarrow> (None, s1)
      | (Response ok b, s1) \<Rightarrow> (b, s1))"

section \<open>The aggregation functions\<close>

text \<open>
  \<open>calculateProjectProgress\<close> returns the number \<open>0\<close> from its guard and its \<open>catch\<close>,
  and the string of \<open>toFixed(2)\<close> otherwise.
\<close>

datatype progress = PNum jsnum | PStr jsstring

definition calculateProjectProgress ::
  "(request \<Rightarrow> 'w \<Rightarrow> reply \<times> 'w) \<Rightarrow> nat option \<Rightarrow> 'w sys \<Rightarrow> progress \<times> 'w sys" where
  "calculateProjectProgress serve projectId s =
     (case fetchTasks serve projectId s of
        (None, s1) \<Rightarrow> (PNum (Fin 0), emit (ConsoleError ''Error calculating progress for project'') s1)
      | (Some Falsy, s1) \<Rightarrow> (PNum (Fin 0), s1)
      | (Some LengthZero, s1) \<Rightarrow> (PNum (Fin 0), s1)
      | (Some Other, s1) \<Rightarrow>
          (PNum (Fin 0), emit (ConsoleError ''Error calculating progress for project'') s1)
      | (Some (Tasks tasks), s1) \<Rightarrow>
          if tasks = [] then (PNum (Fin 0), s1)
          else (PStr (toFixed2 (completionProgress tasks)), s1))"

definition updateProjectProgress ::
  "(request \<Rightarrow> 'w \<Rightarrow> reply \<times> 'w) \<Rightarrow> nat option \<Rightarrow> jsstring \<Rightarrow> 'w sys \<Rightarrow> 'w sys" where
  "updateProjectProgress serve projectId progress s =
     (case fetch serve (PutProgress projectId progress) s of
        (NetworkError, s1) \<Rightarrow> emit (ConsoleError ''Error updating project progress for'') s1
      | (Response ok b, s1) \<Rightarrow>
          if ok then s1 else emit (ConsoleError ''Error updating progress for project'') s1)"

definition updateProjectStatus ::
  "(request \<Rightarrow> 'w \<Rightarrow> reply \<times> 'w) \<Rightarrow> nat option \<Rightarrow> 'w sys \<Rightarrow> 'w sys" where
  "updateProjectStatus serve projectId s =
     (case fetchTasks serve projectId s of
        (Some (Tasks tasks), s1) \<Rightarrow>
          (case fetch serve (PutStatus projectId (projectStatus tasks)) s1 of
             (NetworkError, s2) \<Rightarrow> emit (ConsoleError ''Error updating project status for'') s2
           | (Response ok b, s2) \<Rightarrow>
               if ok then s2 else emit (ConsoleError ''Error updating status for project'') s2)
      | (_, s1) \<Rightarrow> emit (ConsoleError ''Error updating project status for'') s1)"

text \<open>
  The sync coordinator. Its return value (a string from the \<open>null\<close> guard, \<open>undefined\<close>
  otherwise) is ignored by every caller.
\<close>

definition calculateAndUpdateProjectProgress ::
  "(request \<Rightarrow> 'w \<Rightarrow> reply \<times> 'w) \<Rightarrow> nat option \<Rightarrow> 'w sys \<Rightarrow> 'w sys" where
  "calculateAndUpdateProjectProgress serve projectId s =
     (if projectId = None
      then emit (ConsoleLog ''Skipping task loading because project_id is null or invalid.'') s
      else
        case fetchTasks serve projectId s of
          (None, s1) \<Rightarrow> emit (ConsoleError ''Error calculating progress for project'') s1
        | (Some Falsy, s1) \<Rightarrow> emit (ConsoleLog ''has no tasks.'') s1
        | (Some LengthZero, s1) \<Rightarrow> emit (ConsoleLog ''has no tasks.'') s1
        | (Some Other, s1) \<Rightarrow> emit (ConsoleError ''Error calculating progress for project'') s1
        | (Some (Tasks tasks), s1) \<Rightarrow>
            if tasks = [] then emit (ConsoleLog ''has no tasks.'') s1
            else
              updateProjectStatus serve projectId
                (updateProjectProgress serve projectId (toFixed2 (completionProgress tasks)) s1))"

section \<open>The submit handlers\<close>

text \<open>
  The handlers read their form fields and the globals \<open>currentProjectId\<close> and
  \<open>currentTaskId\<close>; these are parameters here. The modal the handler hides is the one
  its button sits in, so \<open>getInstance\<close> finds it. A handler is given here by its own
  awaited chain, from the click to the end of its last \<open>await\<close>; the task handlers
  together with the \<open>loadProjects()\<close> they start are \<open>submitTaskClick\<close> and
  \<open>submitEditTaskClick\<close> below.
\<close>

definition submitTask ::
  "(request \<Rightarrow> 'w \<Rightarrow> reply \<times> 'w) \<Rightarrow> nat option \<Rightarrow> string \<Rightarrow> string \<Rightarrow> string \<Rightarrow> 'w sys \<Rightarrow> 'w sys" where
  "submitTask serve currentProjectId taskName taskStatus taskWeight s =
     (case fetch serve (PostTask currentProjectId taskName taskStatus taskWeight) s of
        (NetworkError, s1) \<Rightarrow>
          emit (Alert ''Error adding task.'') (emit (ConsoleError ''Error adding task:'') s1)
      | (Response ok b, s1) \<Rightarrow>
          if ok then
            updateProjectStatus serve currentProjectId
              (calculateAndUpdateProjectProgress serve currentProjectId
                 (emit (ModalHide ''addTaskModal'') (emit LoadProjects s1)))
          else emit (Alert ''Error adding task.'') s1)"

definition submitEditTask ::
  "(request \<Rightarrow> 'w \<Rightarrow> reply \<times> 'w) \<Rightarrow> nat option \<Rightarrow> nat option \<Rightarrow> string \<Rightarrow> string \<Rightarrow> string \<Rightarrow> 'w sys \<Rightarrow> 'w sys" where
  "submitEditTask serve currentProjectId currentTaskId taskName taskStatus taskWeight s =
     (case fetch serve (PutTask currentTaskId taskName taskStatus taskWeight) s of
        (NetworkError, s1) \<Rightarrow>
          emit (Alert ''Error editing task.'') (emit (ConsoleError ''Error editing task:'') s1)
      | (Response ok b, s1) \<Rightarrow>
          if ok then
            updateProjectStatus serve currentProjectId
              (calculateAndUpdateProjectProgress serve currentProjectId
                 (emit (ModalHide ''editTaskModal'') (emit LoadProjects s1)))
          else emit (Alert ''Error editing task.'') s1)"

definition submitEditProject ::
  "(request \<Rightarrow> 'w \<Rightarrow> reply \<times> 'w) \<Rightarrow> nat option \<Rightarrow> string \<Rightarrow> 'w sys \<Rightarrow> 'w sys" where
  "submitEditProject serve currentProjectId projectName s =
     (if projectName = [] then emit (Alert ''Please fill in all fields.'') s
      else
        case fetch serve (PutProject currentProjectId projectName) s of
          (NetworkError, s1) \<Rightarrow>
            emit (Alert ''Error submitting project changes.'')
              (emit (ConsoleError ''Error submitting project changes:'') s1)
        | (Response ok b, s1) \<Rightarrow>
            if ok then emit (ModalHide ''editProjectModal'') (emit LoadProjects s1)
            else emit (Alert ''Error editing project.'') s1)"

definition submitProject ::
  "(request \<Rightarrow> 'w \<Rightarrow> reply \<times> 'w) \<Rightarrow> string \<Rightarrow> 'w sys \<Rightarrow> 'w sys" where
  "submitProject serve projectName s =
     (if projectName = [] then emit (Alert ''Please fill in all fields.'') s
      else
        case fetch serve (PostProject projectName ''draft'' (Fin 0)) s of
          (NetworkError, s1) \<Rightarrow>
            emit (Alert ''Error submitting project.'')
              (emit (ConsoleError ''Error submitting project:'') s1)
        | (Response ok b, s1) \<Rightarrow>
            if ok then emit (ModalHide ''createProjectModal'') (emit LoadProjects s1)
            else emit (Alert ''Error creating project.'') s1)"

section \<open>Reading a trace\<close>

fun isNetwork :: "event \<Rightarrow> bool" where
  "isNetwork (Sent q) = True"
| "isNetwork (Received r) = True"
| "isNetwork _ = False"

text \<open>The events a call added to the trace, and the network events among them.\<close>

definition since :: "'w sys \<Rightarrow> 'w sys \<Rightarrow> event list" where
  "since s s' = drop (length (events s)) (events s')"

definition network :: "'w sys \<Rightarrow> 'w sys \<Rightarrow> event list" where
  "network s s' = filter isNetwork (since s s')"

fun requests :: "event list \<Rightarrow> request list" where
  "requests [] = []"
| "requests (Sent q # es) = q # requests es"
| "requests (e # es) = requests es"

text \<open>
  A backend for running the client on concrete inputs: it answers every task query
  with the same list, accepts every update, and keeps the updates it was sent.
\<close>

definition stub :: "task list \<Rightarrow> request \<Rightarrow> request list \<Rightarrow> reply \<times> request list" where
  "stub tasks req w =
     (case req of
        GetTasks p \<Rightarrow> (Response True (Some (Tasks tasks)), w)
      | _ \<Rightarrow> (Response True None, w @ [req]))"

definition start :: "request list sys" where
  "start = \<lparr>backend = [], events = []\<rparr>"

definition mkTask :: "string \<Rightarrow> jsnum \<Rightarrow> task" where
  "mkTask s w = \<lparr>task_id = 0, project_id = 1, name = ''t'', status = s, weight = w\<rparr>"

section \<open>The task handlers next to \<open>loadProjects\<close>\<close>

text \<open>
  The task handlers call \<open>loadProjects()\<close> without \<open>await\<close> and go on with their own
  awaited calls: from then on two asynchronous functions are under way. Each of them
  runs until its next \<open>await fetch(...)\<close>, and goes on when the reply is there.

  What is left of an asynchronous function is a \<open>proc\<close>: nothing (\<open>Stop\<close>), a request
  with what follows its reply (\<open>Await\<close>), or a console message with what follows it
  (\<open>Tell\<close>). \<open>run\<close> is one function on its own; \<open>step\<close> does the next \<open>Tell\<close> or the
  next \<open>Await\<close>, the request served by the backend in that step.
\<close>

datatype proc = Stop | Await request "reply \<Rightarrow> proc" | Tell event proc


primrec run :: "(request \<Rightarrow> 'w \<Rightarrow> reply \<times> 'w) \<Rightarrow> proc \<Rightarrow> 'w sys \<Rightarrow> 'w sys" where
  "run serve Stop = (\<lambda>s. s)"
| "run serve (Tell e p) = (\<lambda>s. run serve p (emit e s))"
| "run serve (Await q k) = (\<lambda>s. case fetch serve q s of (r, s1) \<Rightarrow> run serve (k r) s1)"



text \<open>
  The functions of the client as processes, each with what follows it.
  \<open>calculateAndLogProjectProgress\<close> has the body of \<open>calculateAndUpdateProjectProgress\<close>
  without the guard for \<open>null\<close>.
\<close>

definition fetchTasksP :: "nat option \<Rightarrow> (json option \<Rightarrow> proc) \<Rightarrow> proc" where
  "fetchTasksP projectId k =
     Await (GetTasks projectId) (\<lambda>r. case r of NetworkError \<Rightarrow> k None | Response ok b \<Rightarrow> k b)"

definition updateProjectProgressP :: "nat option \<Rightarrow> jsstring \<Rightarrow> proc \<Rightarrow> proc" where
  "updateProjectProgressP projectId progress k =
     Await (PutProgress projectId progress)
       (\<lambda>r. case r of
          NetworkError \<Rightarrow> Tell (ConsoleError ''Error updating project progress for'') k
        | Response ok b \<Rightarrow>
            if ok then k else Tell (ConsoleError ''Error updating progress for project'') k)"

definition updateProjectStatusP :: "nat option \<Rightarrow> proc \<Rightarrow> proc" where
  "updateProjectStatusP projectId k =
     fetchTasksP projectId
       (\<lambda>b. case b of
          Some (Tasks tasks) \<Rightarrow>
            Await (PutStatus projectId (projectStatus tasks))
              (\<lambda>r. case r of
                 NetworkError \<Rightarrow> Tell (ConsoleError ''Error updating project status for'') k
               | Response ok b \<Rightarrow>
                   if ok then k else Tell (ConsoleError ''Error updating status for project'') k)
        | _ \<Rightarrow> Tell (ConsoleError ''Error updating project status for'') k)"

definition calculateAndLogProjectProgressP :: "nat option \<Rightarrow> proc \<Rightarrow> proc" where
  "calculateAndLogProjectProgressP projectId k =
     fetchTasksP projectId
       (\<lambda>b. case b of
          None \<Rightarrow> Tell (ConsoleError ''Error calculating progress for project'') k
        | Some Falsy \<Rightarrow> Tell (ConsoleLog ''has no tasks.'') k
        | Some LengthZero \<Rightarrow> Tell (ConsoleLog ''has no tasks.'') k
        | Some Other \<Rightarrow> Tell (ConsoleError ''Error calculating progress for project'') k
        | Some (Tasks tasks) \<Rightarrow>
            if tasks = [] then Tell (ConsoleLog ''has no tasks.'') k
            else
              updateProjectProgressP projectId (toFixed2 (completionProgress tasks))
                (updateProjectStatusP projectId k))"

definition calculateAndUpdateProjectProgressP :: "nat option \<Rightarrow> proc \<Rightarrow> proc" where
  "calculateAndUpdateProjectProgressP projectId k =
     (if projectId = None
      then Tell (ConsoleLog ''Skipping task loading because project_id is null or invalid.'') k
      else calculateAndLogProjectProgressP projectId k)"

definition calculateProjectProgressP :: "nat option \<Rightarrow> proc \<Rightarrow> proc" where
  "calculateProjectProgressP projectId k =
     fetchTasksP projectId
       (\<lambda>b. case b of
          None \<Rightarrow> Tell (ConsoleError ''Error calculating progress for project'') k
        | Some Other \<Rightarrow> Tell (ConsoleError ''Error calculating progress for project'') k
        | _ \<Rightarrow> k)"




text \<open>
  The awaited calls of a task handler after the mutation:
  \<open>calculateAndUpdateProjectProgress\<close>, then \<open>updateProjectStatus\<close>.
\<close>

definition refreshP :: "nat option \<Rightarrow> proc" where
  "refreshP currentProjectId =
     calculateAndUpdateProjectProgressP currentProjectId
       (updateProjectStatusP currentProjectId Stop)"



text \<open>
  The updates of project \<open>i\<close> among the requests: \<open>PUT /api/projects/i\<close> with a
  completion progress or with a status.
\<close>

fun updatesProject :: "nat \<Rightarrow> request \<Rightarrow> bool" where
  "updatesProject i (PutProgress p v) = (p = Some i)"
| "updatesProject i (PutStatus p st) = (p = Some i)"
| "updatesProject i _ = False"


text \<open>
  The requests that read the tasks and the projects or update a project: all that the
  two functions send after the mutation.
\<close>

fun isRefresh :: "request \<Rightarrow> bool" where
  "isRefresh GetProjects = True"
| "isRefresh (GetTasks p) = True"
| "isRefresh (PutProgress p v) = True"
| "isRefresh (PutStatus p st) = True"
| "isRefresh _ = False"

text \<open>
  \<open>sends good serve i n p us\<close>: on a backend that stays within the states \<open>good\<close>, the
  process \<open>p\<close> finishes within \<open>n\<close> steps, sends refreshing requests only, and the
  updates of project \<open>i\<close> among them are \<open>us\<close>, in this order.
\<close>

inductive sends ::
  "('w \<Rightarrow> bool) \<Rightarrow> (request \<Rightarrow> 'w \<Rightarrow> reply \<times> 'w) \<Rightarrow> nat \<Rightarrow> nat \<Rightarrow> proc \<Rightarrow> request list \<Rightarrow> bool"
  for good :: "'w \<Rightarrow> bool" and serve :: "request \<Rightarrow> 'w \<Rightarrow> reply \<times> 'w" and i :: nat
where
  sends_Stop: "sends good serve i n Stop []"
| sends_Tell: "requests [e] = [] \<Longrightarrow> sends good serve i n p us \<Longrightarrow> sends good serve i (Suc n) (Tell e p) us"
| sends_Await: "isRefresh q \<Longrightarrow> (\<And>w. good w \<Longrightarrow> sends good serve i n (k (fst (serve q w))) us) \<Longrightarrow>
     sends good serve i (Suc n) (Await q k) (if updatesProject i q then q # us else us)"






section \<open>The trace of a call\<close>

lemma events_emit: "events (emit e s) = events s @ [e]"
  by (simp add: emit_def)

lemma backend_emit: "backend (emit e s) = backend s"
  by (simp add: emit_def)

lemma since_app: "events s' = events s @ es \<Longrightarrow> since s s' = es"
  by (simp add: since_def)

lemma requests_append: "requests (xs @ ys) = requests xs @ requests ys"
  by (induction xs rule: requests.induct) simp_all

lemma requests_network: "requests (filter isNetwork es) = requests es"
  by (induction es rule: requests.induct) simp_all

lemma requests_since: "requests (since s s') = requests (network s s')"
  by (simp add: network_def requests_network)

text \<open>Two calls in a row: the second one's events follow the first one's.\<close>

lemma since_trans:
  assumes "events s' = events s @ since s s'" and "events s'' = events s' @ since s' s''"
  shows "events s'' = events s @ since s s''" and "since s s'' = since s s' @ since s' s''"
proof -
  have "events s'' = events s @ (since s s' @ since s' s'')"
    using assms by simp
  then show "since s s'' = since s s' @ since s' s''" by (rule since_app)
  then show "events s'' = events s @ since s s''" using assms by simp
qed

lemma requests_trans:
  assumes "events s' = events s @ since s s'" and "events s'' = events s' @ since s' s''"
  shows "requests (since s s'') = requests (since s s') @ requests (since s' s'')"
  by (simp add: since_trans(2) [OF assms] requests_append)

subsection \<open>Fetching\<close>

lemma fetch_eq:
  "fetch serve req s =
     (fst (serve req (backend s)),
      s\<lparr>backend := snd (serve req (backend s)),
        events := events s @ [Sent req, Received (fst (serve req (backend s)))]\<rparr>)"
  by (simp add: fetch_def split: prod.split)

lemma fetchTasks_eq:
  "fetchTasks serve p s =
     (case fst (serve (GetTasks p) (backend s)) of NetworkError \<Rightarrow> None | Response ok b \<Rightarrow> b,
      s\<lparr>backend := snd (serve (GetTasks p) (backend s)),
        events := events s @ [Sent (GetTasks p), Received (fst (serve (GetTasks p) (backend s)))]\<rparr>)"
  by (simp add: fetchTasks_def fetch_eq split: reply.split)

lemma fetchTasks_Response:
  assumes "fst (serve (GetTasks p) (backend s)) = Response ok b"
  shows "fetchTasks serve p s =
     (b, s\<lparr>backend := snd (serve (GetTasks p) (backend s)),
           events := events s @ [Sent (GetTasks p), Received (Response ok b)]\<rparr>)"
  using assms by (simp add: fetchTasks_eq)

lemma fetchTasks_grows:
  "events (snd (fetchTasks serve p s)) = events s @ since s (snd (fetchTasks serve p s))"
  by (simp add: fetchTasks_eq since_def)

lemma fetchTasks_network:
  "network s (snd (fetchTasks serve p s)) =
     [Sent (GetTasks p), Received (fst (serve (GetTasks p) (backend s)))]"
  by (simp add: fetchTasks_eq network_def since_def)

lemma fetchTasks_requests:
  "requests (since s (snd (fetchTasks serve p s))) = [GetTasks p]"
  by (simp add: requests_since fetchTasks_network)

subsection \<open>The two updates\<close>

lemma updateProjectProgress_grows:
  "events (updateProjectProgress serve p v s) =
     events s @ since s (updateProjectProgress serve p v s)"
  by (simp add: updateProjectProgress_def fetch_eq events_emit since_def split: reply.split)

lemma updateProjectProgress_network:
  "network s (updateProjectProgress serve p v s) =
     [Sent (PutProgress p v), Received (fst (serve (PutProgress p v) (backend s)))]"
  by (simp add: updateProjectProgress_def fetch_eq events_emit network_def since_def
      split: reply.split)

lemma updateProjectProgress_requests:
  "requests (since s (updateProjectProgress serve p v s)) = [PutProgress p v]"
  by (simp add: requests_since updateProjectProgress_network)

lemma updateProjectStatus_grows:
  "events (updateProjectStatus serve p s) = events s @ since s (updateProjectStatus serve p s)"
  by (simp add: updateProjectStatus_def fetchTasks_eq fetch_eq events_emit since_def
      split: reply.split option.split json.split)

lemma updateProjectStatus_network:
  "network s (updateProjectStatus serve p s) =
     [Sent (GetTasks p), Received (fst (serve (GetTasks p) (backend s)))] @
     (case fst (serve (GetTasks p) (backend s)) of
        Response ok (Some (Tasks ts)) \<Rightarrow>
          [Sent (PutStatus p (projectStatus ts)),
           Received (fst (serve (PutStatus p (projectStatus ts))
                       (snd (serve (GetTasks p) (backend s)))))]
      | _ \<Rightarrow> [])"
  by (simp add: updateProjectStatus_def fetchTasks_eq fetch_eq events_emit network_def since_def
      split: reply.split option.split json.split)

lemma updateProjectStatus_requests:
  assumes "fst (serve (GetTasks p) (backend s)) = Response ok (Some (Tasks ts))"
  shows "requests (since s (updateProjectStatus serve p s)) =
     [GetTasks p, PutStatus p (projectStatus ts)]"
  by (simp add: requests_since updateProjectStatus_network assms)

section \<open>The status rollup\<close>

text \<open>
  C1. For every task list the backend returns, \<open>updateProjectStatus\<close> sends the status
  \<open>projectStatus tasks\<close>, and that status is \<open>done\<close> exactly when every task is done;
  \<open>in progress\<close> exactly when not every task is done and some task is in progress;
  \<open>draft\<close> exactly when neither holds. The all-done check comes first.
\<close>

theorem status_rollup:
  assumes "fst (serve (GetTasks p) (backend s)) = Response ok (Some (Tasks ts))"
  shows "requests (since s (updateProjectStatus serve p s)) =
           [GetTasks p, PutStatus p (projectStatus ts)]
     \<and> (projectStatus ts = ''done'' \<longleftrightarrow> (\<forall>t\<in>set ts. status t = ''done''))
     \<and> (projectStatus ts = ''in progress'' \<longleftrightarrow>
          \<not> (\<forall>t\<in>set ts. status t = ''done'') \<and> (\<exists>t\<in>set ts. status t = ''in progress''))
     \<and> (projectStatus ts = ''draft'' \<longleftrightarrow>
          \<not> (\<forall>t\<in>set ts. status t = ''done'') \<and> \<not> (\<exists>t\<in>set ts. status t = ''in progress''))"
proof -
  have "requests (since s (updateProjectStatus serve p s)) =
      [GetTasks p, PutStatus p (projectStatus ts)]"
    using assms by (rule updateProjectStatus_requests)
  moreover have "projectStatus ts = ''done'' \<longleftrightarrow> (\<forall>t\<in>set ts. status t = ''done'')"
    by (simp add: projectStatus_def list_all_iff)
  moreover have "projectStatus ts = ''in progress'' \<longleftrightarrow>
      \<not> (\<forall>t\<in>set ts. status t = ''done'') \<and> (\<exists>t\<in>set ts. status t = ''in progress'')"
    by (simp add: projectStatus_def list_all_iff list_ex_iff)
  moreover have "projectStatus ts = ''draft'' \<longleftrightarrow>
      \<not> (\<forall>t\<in>set ts. status t = ''done'') \<and> \<not> (\<exists>t\<in>set ts. status t = ''in progress'')"
    by (simp add: projectStatus_def list_all_iff list_ex_iff)
  ultimately show ?thesis by blast
qed

text \<open>One task done and one in draft, no task in progress: the project is a draft.\<close>

theorem status_rollup_witness:
  "requests (since start
      (updateProjectStatus (stub [mkTask ''done'' (Fin 2), mkTask ''draft'' (Fin 2)]) (Some 1) start)) =
     [GetTasks (Some 1), PutStatus (Some 1) ''draft'']"
  using status_rollup [of "stub [mkTask ''done'' (Fin 2), mkTask ''draft'' (Fin 2)]" "Some 1" start
      True "[mkTask ''done'' (Fin 2), mkTask ''draft'' (Fin 2)]"]
  by (simp add: stub_def start_def projectStatus_def mkTask_def)

section \<open>The completion percentage\<close>

lemma calculateProjectProgress_Tasks:
  assumes "fst (serve (GetTasks p) (backend s)) = Response ok (Some (Tasks ts))"
  shows "fst (calculateProjectProgress serve p s) =
     (if ts = [] then PNum (Fin 0) else PStr (toFixed2 (completionProgress ts)))"
  using assms by (simp add: calculateProjectProgress_def fetchTasks_Response)

subsection \<open>Natural weights\<close>

lemma rnd_even_of_int: "rnd_even (of_int k) = k"
  by (simp add: rnd_even_def)

text \<open>A natural number below \<open>2^53\<close> is a double: rounding leaves it as it is.\<close>

lemma fl_of_nat:
  assumes "n < 2 ^ 53"
  shows "fl (of_nat n) = Fin (of_nat n)"
proof (cases "n = 0")
  case True
  then show ?thesis by (simp add: fl_def)
next
  case False
  then have q1: "(1::rat) \<le> of_nat n" by simp
  define e where "e = max (ilog2 (of_nat n) - 52) (- 1074)"
  have il: "ilog2 (of_nat n) = bitlen (int n) - 1"
    using q1 by (simp add: ilog2_def)
  have "bitlen (int n) \<le> 53"
    using assms by (simp add: bitlen_le_iff_power)
  then have e_le: "e \<le> 0" by (simp add: e_def il)
  define k where "k = nat (- e)"
  have p2: "pow2 e = 1 / of_int (2 ^ k)"
    using e_le by (cases "e = 0") (auto simp: pow2_def k_def)
  have quot: "(of_nat n :: rat) / pow2 e = of_int (int n * 2 ^ k)"
    by (simp add: p2)
  have v: "of_int (rnd_even ((of_nat n :: rat) / pow2 e)) * pow2 e = of_nat n"
    unfolding quot rnd_even_of_int by (simp add: p2)
  have small: "\<not> (of_int (2 ^ 1024) \<le> (of_nat n :: rat))"
  proof -
    have "int n < 2 ^ 53" using assms by (metis of_nat_less_numeral_power_cancel_iff)
    also have "\<dots> \<le> (2::int) ^ 1024" by (rule power_increasing) simp_all
    finally have "(of_int (int n) :: rat) < of_int (2 ^ 1024)" by (simp only: of_int_less_iff)
    then show ?thesis by simp
  qed
  show ?thesis
    using False v small by (simp add: fl_def Let_def e_def[symmetric] del: of_int_power)
qed

lemma fl_nat_sum:
  "a + b < 2 ^ 53 \<Longrightarrow> fl (of_nat a + of_nat b) = Fin (of_nat a + of_nat b)"
  using fl_of_nat [of "a + b"] by simp

lemma fold_addTask_nat:
  assumes "list_all (\<lambda>t. isNat (weight t)) ts"
    and "a + totalNat ts < 2 ^ 53" and "b \<le> a"
  shows "fold addTask ts (Fin (of_nat a), Fin (of_nat b)) =
     (Fin (of_nat (a + totalNat ts)),
      Fin (of_nat (b + totalNat (filter (\<lambda>t. status t = ''done'') ts))))"
  using assms
proof (induction ts arbitrary: a b)
  case Nil
  then show ?case by (simp add: totalNat_def)
next
  case (Cons t ts)
  define n where "n = natWeight (weight t)"
  have w: "weight t = Fin (of_nat n)"
    using Cons.prems(1) by (simp add: isNat_def n_def)
  have tot: "totalNat (t # ts) = n + totalNat ts"
    by (simp add: totalNat_def n_def)
  have an: "a + n < 2 ^ 53" and bn: "b + n < 2 ^ 53"
    using Cons.prems(2,3) by (simp_all add: tot)
  have rest: "list_all (\<lambda>t. isNat (weight t)) ts" using Cons.prems(1) by simp
  have fa: "fl (of_nat a + of_nat n) = Fin (of_nat a + of_nat n)" using an by (rule fl_nat_sum)
  have fb: "fl (of_nat b + of_nat n) = Fin (of_nat b + of_nat n)" using bn by (rule fl_nat_sum)
  show ?case
  proof (cases "status t = ''done''")
    case True
    have "fold addTask (t # ts) (Fin (of_nat a), Fin (of_nat b)) =
          fold addTask ts (Fin (of_nat (a + n)), Fin (of_nat (b + n)))"
      using True by (simp add: addTask_def w fa fb)
    also have "\<dots> = (Fin (of_nat (a + n + totalNat ts)),
        Fin (of_nat (b + n + totalNat (filter (\<lambda>t. status t = ''done'') ts))))"
      using Cons.prems(2,3) by (intro Cons.IH rest) (simp_all add: tot)
    finally show ?thesis using True by (simp add: tot totalNat_def n_def add.assoc)
  next
    case False
    have "fold addTask (t # ts) (Fin (of_nat a), Fin (of_nat b)) =
          fold addTask ts (Fin (of_nat (a + n)), Fin (of_nat b))"
      using False by (simp add: addTask_def w fa)
    also have "\<dots> = (Fin (of_nat (a + n + totalNat ts)),
        Fin (of_nat (b + totalNat (filter (\<lambda>t. status t = ''done'') ts))))"
      using Cons.prems(2,3) by (intro Cons.IH rest) (simp_all add: tot)
    finally show ?thesis using False by (simp add: tot add.assoc)
  qed
qed

lemma sumWeights_nat:
  assumes "list_all (\<lambda>t. isNat (weight t)) ts" and "totalNat ts < 2 ^ 53"
  shows "sumWeights ts =
     (Fin (of_nat (totalNat ts)),
      Fin (of_nat (totalNat (filter (\<lambda>t. status t = ''done'') ts))))"
  using fold_addTask_nat [of ts 0 0] assms by (simp add: sumWeights_def)

subsection \<open>The rounding error of the quotient and the product\<close>

lemma pow2_powi: "pow2 e = 2 powi e"
  by (simp add: pow2_def power_int_def inverse_eq_divide power_one_over)

lemma ilog2_le:
  assumes "0 < q"
  shows "pow2 (ilog2 q) \<le> q"
proof (cases "1 \<le> q")
  case True
  then have pos: "0 < \<lfloor>q\<rfloor>" by simp
  have L: "ilog2 q = bitlen \<lfloor>q\<rfloor> - 1" using True by (simp add: ilog2_def)
  have ge: "0 \<le> bitlen \<lfloor>q\<rfloor> - 1"
    using pos by (simp add: bitlen_alt_def)
  have "(2::int) ^ nat (bitlen \<lfloor>q\<rfloor> - 1) \<le> \<lfloor>q\<rfloor>"
    using bitlen_bounds [OF pos] by simp
  then have "(of_int (2 ^ nat (bitlen \<lfloor>q\<rfloor> - 1)) :: rat) \<le> of_int \<lfloor>q\<rfloor>"
    by (simp only: of_int_le_iff)
  also have "\<dots> \<le> q" by simp
  finally show ?thesis using ge by (simp add: L pow2_def)
next
  case False
  then have q1: "q < 1" by simp
  define m where "m = \<lceil>1 / q\<rceil> - 1"
  have "1 < 1 / q" using assms q1 by (simp add: field_simps)
  then have "1 < \<lceil>1 / q\<rceil>" by (simp add: less_ceiling_iff)
  then have mpos: "0 < m" by (simp add: m_def)
  have L: "ilog2 q = - bitlen m" using False by (simp add: ilog2_def m_def)
  have bpos: "0 < bitlen m" using mpos by (simp add: bitlen_alt_def)
  have "m < 2 ^ nat (bitlen m)" using bitlen_bounds [OF mpos] by simp
  then have "\<lceil>1 / q\<rceil> \<le> 2 ^ nat (bitlen m)" by (simp add: m_def)
  then have "(of_int \<lceil>1 / q\<rceil> :: rat) \<le> of_int (2 ^ nat (bitlen m))"
    by (simp only: of_int_le_iff)
  moreover have "1 / q \<le> of_int \<lceil>1 / q\<rceil>" by simp
  ultimately have "1 / q \<le> of_int (2 ^ nat (bitlen m))" by linarith
  then have "1 / of_int (2 ^ nat (bitlen m)) \<le> q"
    using assms by (simp add: field_simps)
  then show ?thesis using bpos by (simp add: L pow2_def)
qed

lemma rnd_even_err: "\<bar>of_int (rnd_even x) - x\<bar> \<le> 1 / 2"
proof -
  have "of_int \<lfloor>x\<rfloor> \<le> x" and "x < of_int \<lfloor>x\<rfloor> + 1" by linarith+
  then show ?thesis by (auto simp: rnd_even_def Let_def)
qed

lemma rnd_even_nonneg: "0 \<le> x \<Longrightarrow> 0 \<le> rnd_even x"
  by (auto simp: rnd_even_def Let_def)

lemma fl_err:
  assumes "0 < q" and "q < 2 powi K" and "- 1020 \<le> K" and "K \<le> 1023"
  shows "\<exists>v. fl q = Fin v \<and> 0 \<le> v \<and> \<bar>v - q\<bar> \<le> 2 powi (K - 54)"
proof -
  define e where "e = max (ilog2 q - 52) (- 1074)"
  define pe :: rat where "pe = 2 powi e"
  define v where "v = of_int (rnd_even (q / pe)) * pe"
  have "2 powi ilog2 q \<le> q" using ilog2_le [OF assms(1)] by (simp add: pow2_powi)
  then have "(2::rat) powi ilog2 q < 2 powi K" using assms(2) by simp
  then have "ilog2 q < K"
    using power_int_increasing [of K "ilog2 q" "2::rat"] by (cases "ilog2 q < K") auto
  then have e_le: "e \<le> K - 53" using assms(3) by (simp add: e_def)
  have pe_pos: "0 < pe" by (simp add: pe_def)
  have "v - q = (of_int (rnd_even (q / pe)) - q / pe) * pe"
    using pe_pos by (simp add: v_def left_diff_distrib)
  then have "\<bar>v - q\<bar> = \<bar>of_int (rnd_even (q / pe)) - q / pe\<bar> * pe"
    using pe_pos by (simp add: abs_mult)
  also have "\<dots> \<le> (1 / 2) * pe"
    using pe_pos rnd_even_err [of "q / pe"] by (intro mult_right_mono) simp_all
  also have "\<dots> = 2 powi (e - 1)"
    by (simp add: pe_def power_int_diff)
  also have "\<dots> \<le> 2 powi (K - 54)"
    using e_le by (intro power_int_increasing) simp_all
  finally have err: "\<bar>v - q\<bar> \<le> 2 powi (K - 54)" .
  have v_nonneg: "0 \<le> v"
    using pe_pos assms(1) by (simp add: v_def rnd_even_nonneg)
  have "2 powi (K - 54) \<le> (2::rat) powi K"
    by (intro power_int_increasing) simp_all
  then have "v < 2 powi K + 2 powi K" using err assms(2) by linarith
  also have "\<dots> = (2::rat) powi (K + 1)" by (simp add: power_int_add)
  also have "\<dots> \<le> 2 powi 1024"
    using assms(4) by (intro power_int_increasing) simp_all
  finally have "v < of_int (2 ^ 1024)" by simp
  then have "fl q = Fin v"
    using assms(1) unfolding fl_def
    by (simp add: Let_def pow2_powi e_def [symmetric] pe_def [symmetric] v_def [symmetric]
        del: of_int_power power_int_numeral)
  with v_nonneg err show ?thesis by blast
qed

lemma percent_err:
  assumes "c \<le> t" and "0 < t"
  shows "\<exists>p. jmul (jdiv (Fin (of_nat c)) (Fin (of_nat t))) (Fin 100) = Fin p
     \<and> 0 \<le> p \<and> \<bar>p - of_nat c / of_nat t * 100\<bar> \<le> 1 / 2 ^ 45"
proof (cases "c = 0")
  case True
  then show ?thesis using assms(2) by (simp add: fl_def)
next
  case False
  define q :: rat where "q = of_nat c / of_nat t"
  have qpos: "0 < q" using False assms(2) by (simp add: q_def)
  have q1: "q \<le> 1" using assms by (simp add: q_def)
  have div: "jdiv (Fin (of_nat c)) (Fin (of_nat t)) = fl q"
    using assms(2) by (simp add: q_def)
  obtain v where v: "fl q = Fin v" and vpos: "0 \<le> v" and verr: "\<bar>v - q\<bar> \<le> 2 powi (1 - 54)"
    using fl_err [of q 1] qpos q1 by auto
  have e53: "(2::rat) powi (1 - 54) = 1 / 2 ^ 53"
    by (simp add: power_int_def inverse_eq_divide power_one_over)
  have e47: "(2::rat) powi (7 - 54) = 1 / 2 ^ 47"
    by (simp add: power_int_def inverse_eq_divide power_one_over)
  have verr': "\<bar>v - q\<bar> \<le> 1 / 2 ^ 53" using verr by (simp only: e53)
  show ?thesis
  proof (cases "v = 0")
    case True
    have "jmul (jdiv (Fin (of_nat c)) (Fin (of_nat t))) (Fin 100) = jmul (Fin 0) (Fin 100)"
      by (simp only: div v True)
    then have "jmul (jdiv (Fin (of_nat c)) (Fin (of_nat t))) (Fin 100) = Fin 0"
      by (simp add: fl_def)
    moreover have "\<bar>0 - q * 100\<bar> \<le> 1 / 2 ^ 45"
      using verr' True qpos by simp
    ultimately show ?thesis by (auto simp: q_def)
  next
    case False
    then have xpos: "0 < v * 100" using vpos by simp
    have "v - q \<le> \<bar>v - q\<bar>" by simp
    then have "v \<le> 1 + 1 / 2 ^ 53" using verr' q1 by linarith
    then have "v \<le> 5 / 4" by simp
    then have xlt: "v * 100 < 2 powi 7" by simp
    obtain p where p: "fl (v * 100) = Fin p" and ppos: "0 \<le> p"
      and perr: "\<bar>p - v * 100\<bar> \<le> 2 powi (7 - 54)"
      using fl_err [of "v * 100" 7] xpos xlt by auto
    have perr': "\<bar>p - v * 100\<bar> \<le> 1 / 2 ^ 47" using perr by (simp only: e47)
    have "p - q * 100 = (p - v * 100) + (v - q) * 100" by (simp add: algebra_simps)
    then have "\<bar>p - q * 100\<bar> \<le> \<bar>p - v * 100\<bar> + \<bar>(v - q) * 100\<bar>"
      by (simp only: abs_triangle_ineq)
    also have "\<bar>(v - q) * 100\<bar> = \<bar>v - q\<bar> * 100" by (simp only: abs_mult abs_numeral)
    finally have "\<bar>p - q * 100\<bar> \<le> \<bar>p - v * 100\<bar> + \<bar>v - q\<bar> * 100" .
    also have "\<dots> \<le> 1 / 2 ^ 47 + (1 / 2 ^ 53) * 100"
      using perr' verr' by (intro add_mono mult_right_mono) simp_all
    also have "\<dots> \<le> 1 / 2 ^ 45" by simp
    finally have "\<bar>p - q * 100\<bar> \<le> 1 / 2 ^ 45" .
    moreover have "jmul (jdiv (Fin (of_nat c)) (Fin (of_nat t))) (Fin 100) = jmul (Fin v) (Fin 100)"
      by (simp only: div v)
    then have "jmul (jdiv (Fin (of_nat c)) (Fin (of_nat t))) (Fin 100) = Fin p"
      by (simp add: p)
    ultimately show ?thesis using ppos by (auto simp: q_def)
  qed
qed

lemma ratOf_isNat: "isNat w \<Longrightarrow> ratOf w = of_nat (natWeight w)"
  by (cases w) (auto simp: isNat_def ratOf_def)

lemma sum_ratOf_nat:
  "list_all (\<lambda>t. isNat (weight t)) ts \<Longrightarrow>
     sum_list (map (\<lambda>t. ratOf (weight t)) ts) = of_nat (totalNat ts)"
  by (induction ts) (simp_all add: totalNat_def ratOf_isNat)

lemma totalNat_filter_le: "totalNat (filter P ts) \<le> totalNat ts"
  by (induction ts) (simp_all add: totalNat_def)

lemma exactPercent_nat:
  assumes "list_all (\<lambda>t. isNat (weight t)) ts"
  shows "exactPercent ts =
     of_nat (totalNat (filter (\<lambda>t. status t = ''done'') ts)) / of_nat (totalNat ts) * 100"
proof -
  have "list_all (\<lambda>t. isNat (weight t)) (filter (\<lambda>t. status t = ''done'') ts)"
    using assms by (simp add: list_all_iff)
  then show ?thesis
    using assms by (simp add: exactPercent_def sum_ratOf_nat)
qed

lemma toFixed2_same:
  assumes "0 \<le> x" and "0 \<le> y" and "x < 10 ^ 21" and "y < 10 ^ 21"
    and "\<lfloor>x * 100 + 1 / 2\<rfloor> = \<lfloor>y * 100 + 1 / 2\<rfloor>"
  shows "toFixed2 (Fin x) = toFixed2 (Fin y)"
  using assms by (simp add: toFixed2_def Let_def)

lemma floor_near:
  fixes x y d :: rat
  assumes "\<bar>x - y\<bar> \<le> d" and "d \<le> frac y" and "frac y < 1 - d"
  shows "\<lfloor>x\<rfloor> = \<lfloor>y\<rfloor>"
proof (rule floor_unique)
  have y: "y = of_int \<lfloor>y\<rfloor> + frac y" by (simp add: frac_def)
  have "x - y \<le> \<bar>x - y\<bar>" and "y - x \<le> \<bar>x - y\<bar>" by simp_all
  then show "of_int \<lfloor>y\<rfloor> \<le> x" and "x < of_int \<lfloor>y\<rfloor> + 1"
    using assms y by linarith+
qed

lemma progress_23_of_160: "fst (calculateProjectProgress (stub [mkTask ''done'' (Fin 23), mkTask ''draft'' (Fin 137)])
      (Some 1) start) = PStr (Lit ''14.37'')"
  by code_simp

lemma roundedExact_23_of_160: "roundedExact [mkTask ''done'' (Fin 23), mkTask ''draft'' (Fin 137)] = Lit ''14.38''"
  by code_simp

lemma exactPercent_23_of_160: "exactPercent [mkTask ''done'' (Fin 23), mkTask ''draft'' (Fin 137)] = 115 / 8"
  by (simp add: exactPercent_def ratOf_def mkTask_def)

text \<open>
  C2. The claim is that for every non-empty task list the result is the sum of the
  weights of the done tasks, divided by the sum of all weights, times 100, rounded to
  two decimals. The code divides and multiplies in binary64, and each operation rounds.
  With weight 23 done of 160 in all, the formula gives \<open>14.375\<close>, which rounds to
  \<open>14.38\<close>; the code's quotient times 100 is \<open>14.374999999999998\<close>, and it returns
  \<open>14.37\<close>.
\<close>

theorem progress_not_exactly_rounded:
  "fst (calculateProjectProgress (stub [mkTask ''done'' (Fin 23), mkTask ''draft'' (Fin 137)])
      (Some 1) start) = PStr (Lit ''14.37'')
   \<and> exactPercent [mkTask ''done'' (Fin 23), mkTask ''draft'' (Fin 137)] = 115 / 8
   \<and> roundedExact [mkTask ''done'' (Fin 23), mkTask ''draft'' (Fin 137)] = Lit ''14.38''"
  using progress_23_of_160 roundedExact_23_of_160 exactPercent_23_of_160 by simp

text \<open>
  C2, as amended. When the weights are natural numbers with a positive sum below
  \<open>2^53\<close>, \<open>calculateProjectProgress\<close> returns \<open>toFixed(2)\<close> of a number that is
  within \<open>2^-45\<close> of the sum of the weights of the done tasks, divided by the sum of all
  weights, times 100. The result is that value rounded to two decimals, unless the
  value times 100 lies within \<open>100 / 2^45\<close> of the middle between two integers.
\<close>

theorem progress_near_exact:
  assumes "fst (serve (GetTasks p) (backend s)) = Response ok (Some (Tasks ts))"
    and "list_all (\<lambda>t. isNat (weight t)) ts"
    and "0 < totalNat ts" and "totalNat ts < 2 ^ 53"
  shows "(\<exists>x. fst (calculateProjectProgress serve p s) = PStr (toFixed2 (Fin x))
            \<and> \<bar>x - exactPercent ts\<bar> \<le> 1 / 2 ^ 45)
     \<and> (100 / 2 ^ 45 \<le> frac (exactPercent ts * 100 + 1 / 2)
          \<and> frac (exactPercent ts * 100 + 1 / 2) < 1 - 100 / 2 ^ 45
        \<longrightarrow> fst (calculateProjectProgress serve p s) = PStr (roundedExact ts))"
proof -
  let ?c = "totalNat (filter (\<lambda>t. status t = ''done'') ts)"
  let ?t = "totalNat ts"
  have ne: "ts \<noteq> []" using assms(3) by (auto simp: totalNat_def)
  have cle: "?c \<le> ?t" by (rule totalNat_filter_le)
  obtain x where x: "jmul (jdiv (Fin (of_nat ?c)) (Fin (of_nat ?t))) (Fin 100) = Fin x"
    and xpos: "0 \<le> x"
    and err: "\<bar>x - of_nat ?c / of_nat ?t * 100\<bar> \<le> 1 / 2 ^ 45"
    using percent_err [OF cle assms(3)] by blast
  have ex: "exactPercent ts = of_nat ?c / of_nat ?t * 100"
    by (rule exactPercent_nat [OF assms(2)])
  have err': "\<bar>x - exactPercent ts\<bar> \<le> 1 / 2 ^ 45" using err by (simp only: ex)
  have "completionProgress ts = Fin x"
    by (simp only: completionProgress_def sumWeights_nat [OF assms(2,4)] prod.case x)
  then have res: "fst (calculateProjectProgress serve p s) = PStr (toFixed2 (Fin x))"
    using assms(1) ne by (simp add: calculateProjectProgress_Tasks)
  have ypos: "0 \<le> exactPercent ts" by (simp add: ex)
  have "(of_nat ?c :: rat) / of_nat ?t \<le> 1" using cle assms(3) by simp
  then have "(of_nat ?c :: rat) / of_nat ?t * 100 \<le> 1 * 100"
    by (intro mult_right_mono) simp_all
  then have yle: "exactPercent ts \<le> 100" by (simp only: ex mult_1)
  have "x - exactPercent ts \<le> \<bar>x - exactPercent ts\<bar>" by simp
  moreover have "(1::rat) / 2 ^ 45 \<le> 1" by simp
  ultimately have xle: "x \<le> 101" using err' yle by linarith
  have same: "toFixed2 (Fin x) = toFixed2 (Fin (exactPercent ts))"
    if lo: "100 / 2 ^ 45 \<le> frac (exactPercent ts * 100 + 1 / 2)"
    and hi: "frac (exactPercent ts * 100 + 1 / 2) < 1 - 100 / 2 ^ 45"
  proof -
    have "(x * 100 + 1 / 2) - (exactPercent ts * 100 + 1 / 2) = (x - exactPercent ts) * 100"
      by (simp add: algebra_simps)
    then have "\<bar>(x * 100 + 1 / 2) - (exactPercent ts * 100 + 1 / 2)\<bar> = \<bar>x - exactPercent ts\<bar> * 100"
      by (simp only: abs_mult abs_numeral)
    also have "\<dots> \<le> (1 / 2 ^ 45) * 100"
      using err' by (intro mult_right_mono) simp_all
    finally have "\<bar>(x * 100 + 1 / 2) - (exactPercent ts * 100 + 1 / 2)\<bar> \<le> 100 / 2 ^ 45"
      by simp
    then have "\<lfloor>x * 100 + 1 / 2\<rfloor> = \<lfloor>exactPercent ts * 100 + 1 / 2\<rfloor>"
      using lo hi by (rule floor_near)
    then show ?thesis
      using xpos ypos xle yle by (intro toFixed2_same) simp_all
  qed
  show ?thesis
    using res err' same by (auto simp: roundedExact_def)
qed

lemma roundedExact_half:
  "roundedExact [mkTask ''done'' (Fin 2), mkTask ''draft'' (Fin 2)] = Lit ''50.00''"
  by code_simp

lemma exactPercent_half:
  "exactPercent [mkTask ''done'' (Fin 2), mkTask ''draft'' (Fin 2)] = 50"
  by (simp add: exactPercent_def ratOf_def mkTask_def)

lemma frac_half: "frac (10001 / 2 :: rat) = 1 / 2"
proof -
  have "\<lfloor>10001 / 2 :: rat\<rfloor> = 5000" by (rule floor_unique) simp_all
  then show ?thesis by (simp add: frac_def)
qed

text \<open>Weight 2 done of weight 4 in all: \<open>50.00\<close>.\<close>

theorem progress_near_exact_witness:
  "list_all (\<lambda>t. isNat (weight t)) [mkTask ''done'' (Fin 2), mkTask ''draft'' (Fin 2)]
   \<and> 0 < totalNat [mkTask ''done'' (Fin 2), mkTask ''draft'' (Fin 2)]
   \<and> totalNat [mkTask ''done'' (Fin 2), mkTask ''draft'' (Fin 2)] < 2 ^ 53
   \<and> fst (calculateProjectProgress (stub [mkTask ''done'' (Fin 2), mkTask ''draft'' (Fin 2)])
        (Some 1) start) = PStr (Lit ''50.00'')"
proof -
  let ?T = "[mkTask ''done'' (Fin 2), mkTask ''draft'' (Fin 2)]"
  have h1: "fst (stub ?T (GetTasks (Some 1)) (backend start)) = Response True (Some (Tasks ?T))"
    by (simp add: stub_def)
  have h2: "list_all (\<lambda>t. isNat (weight t)) ?T"
    by (simp add: isNat_def natWeight_def mkTask_def)
  have t: "totalNat ?T = 4" by (simp add: totalNat_def natWeight_def mkTask_def)
  have h3: "0 < totalNat ?T" and h4: "totalNat ?T < 2 ^ 53" by (simp_all add: t)
  have far: "100 / 2 ^ 45 \<le> frac (exactPercent ?T * 100 + 1 / 2)
      \<and> frac (exactPercent ?T * 100 + 1 / 2) < 1 - 100 / 2 ^ 45"
    by (simp add: exactPercent_half frac_half)
  have "fst (calculateProjectProgress (stub ?T) (Some 1) start) = PStr (roundedExact ?T)"
    using progress_near_exact [where serve="stub ?T" and s=start, OF h1 h2 h3 h4] far by blast
  then show ?thesis using h2 h3 h4 by (simp add: roundedExact_half)
qed

text \<open>
  C3. The claim is that the result for a non-empty task list is always a number between
  0 and 100, never \<open>NaN\<close>, also when every weight is 0. The code has no guard for a
  total weight of 0: for the one task of weight 0 the quotient is \<open>0 / 0\<close>, and the
  function returns the string \<open>NaN\<close>.
\<close>

theorem progress_zero_weight_is_NaN:
  "fst (calculateProjectProgress (stub [mkTask ''draft'' (Fin 0)]) (Some 1) start) =
     PStr (Lit ''NaN'')"
  by code_simp

text \<open>C4. On an empty task list \<open>calculateProjectProgress\<close> returns the number 0.\<close>

theorem progress_empty:
  assumes "fst (serve (GetTasks p) (backend s)) = Response ok (Some (Tasks []))"
  shows "fst (calculateProjectProgress serve p s) = PNum (Fin 0)"
  using assms by (simp add: calculateProjectProgress_Tasks)

theorem progress_empty_witness:
  "fst (stub [] (GetTasks (Some 1)) (backend start)) = Response True (Some (Tasks []))
   \<and> fst (calculateProjectProgress (stub []) (Some 1) start) = PNum (Fin 0)"
  using progress_empty [of "stub []" "Some 1" start True]
  by (simp add: stub_def)

section \<open>The sync coordinator\<close>

lemma calculateAndUpdate_run:
  assumes "fst (serve (GetTasks (Some i)) (backend s)) = Response ok (Some (Tasks ts))"
    and "ts \<noteq> []"
  shows "calculateAndUpdateProjectProgress serve (Some i) s =
     updateProjectStatus serve (Some i)
       (updateProjectProgress serve (Some i) (toFixed2 (completionProgress ts))
          (snd (fetchTasks serve (Some i) s)))"
  using assms by (simp add: calculateAndUpdateProjectProgress_def fetchTasks_Response)

lemma calculateAndUpdate_grows:
  assumes "fst (serve (GetTasks (Some i)) (backend s)) = Response ok (Some (Tasks ts))"
    and "ts \<noteq> []"
  shows "events (calculateAndUpdateProjectProgress serve (Some i) s) =
     events s @ since s (calculateAndUpdateProjectProgress serve (Some i) s)"
  unfolding calculateAndUpdate_run [where serve=serve and s=s, OF assms]
  by (rule since_trans(1) [OF since_trans(1) [OF fetchTasks_grows updateProjectProgress_grows]
        updateProjectStatus_grows])

lemma calculateAndUpdate_grows_any:
  "events (calculateAndUpdateProjectProgress serve p s) =
     events s @ since s (calculateAndUpdateProjectProgress serve p s)"
proof (cases "\<exists>i ok ts. p = Some i \<and>
    fst (serve (GetTasks (Some i)) (backend s)) = Response ok (Some (Tasks ts)) \<and> ts \<noteq> []")
  case True
  then obtain i ok ts where "p = Some i"
    and "fst (serve (GetTasks (Some i)) (backend s)) = Response ok (Some (Tasks ts))"
    and "ts \<noteq> []"
    by blast
  then show ?thesis using calculateAndUpdate_grows [where serve=serve and s=s] by simp
next
  case False
  then show ?thesis
    by (cases p)
      (auto simp: calculateAndUpdateProjectProgress_def fetchTasks_eq events_emit since_def
        split: reply.split option.split json.split)
qed

lemma calculateAndUpdate_network:
  assumes "fst (serve (GetTasks (Some i)) (backend s)) = Response ok (Some (Tasks ts))"
    and "ts \<noteq> []"
  shows "network s (calculateAndUpdateProjectProgress serve (Some i) s) =
     network s (snd (fetchTasks serve (Some i) s)) @
     network (snd (fetchTasks serve (Some i) s))
       (updateProjectProgress serve (Some i) (toFixed2 (completionProgress ts))
          (snd (fetchTasks serve (Some i) s))) @
     network (updateProjectProgress serve (Some i) (toFixed2 (completionProgress ts))
          (snd (fetchTasks serve (Some i) s)))
       (calculateAndUpdateProjectProgress serve (Some i) s)"
proof -
  let ?s1 = "snd (fetchTasks serve (Some i) s)"
  let ?s2 = "updateProjectProgress serve (Some i) (toFixed2 (completionProgress ts)) ?s1"
  let ?s3 = "updateProjectStatus serve (Some i) ?s2"
  have a: "events ?s2 = events s @ since s ?s2" and b: "since s ?s2 = since s ?s1 @ since ?s1 ?s2"
    by (rule since_trans [OF fetchTasks_grows updateProjectProgress_grows])+
  have "since s ?s3 = since s ?s2 @ since ?s2 ?s3"
    by (rule since_trans(2) [OF a updateProjectStatus_grows])
  then show ?thesis
    unfolding calculateAndUpdate_run [where serve=serve and s=s, OF assms]
    by (simp add: network_def b)
qed

lemma calculateAndUpdate_requests_empty:
  assumes "fst (serve (GetTasks (Some i)) (backend s)) = Response ok (Some (Tasks []))"
  shows "requests (since s (calculateAndUpdateProjectProgress serve (Some i) s)) =
     [GetTasks (Some i)]"
  using assms
  by (simp add: calculateAndUpdateProjectProgress_def fetchTasks_Response events_emit since_def)

lemma updateProjectProgress_backend:
  "backend (updateProjectProgress serve p v s) = snd (serve (PutProgress p v) (backend s))"
  by (simp add: updateProjectProgress_def fetch_eq backend_emit split: reply.split)

lemma fetchTasks_backend:
  "backend (snd (fetchTasks serve p s)) = snd (serve (GetTasks p) (backend s))"
  by (simp add: fetchTasks_eq)

lemma completion_half:
  "toFixed2 (completionProgress [mkTask ''done'' (Fin 2), mkTask ''draft'' (Fin 2)]) = Lit ''50.00''"
  by code_simp

text \<open>
  C5. In every call of \<open>calculateAndUpdateProjectProgress\<close> on a non-empty task list, the
  network events are exactly these, in this order: the task query and its reply, the
  progress update and its reply, the task query of \<open>updateProjectStatus\<close> and its
  reply, and, when that reply is a task list, the status update for that list and its
  reply (when it is not, \<open>updateProjectStatus\<close> fails and no status update is sent).
  Each request goes to the backend in the state the request before it left. The reply to
  the progress update has arrived before the status update goes out: the two are never
  in flight together.
\<close>

theorem progress_put_then_status_put:
  assumes "fst (serve (GetTasks (Some i)) (backend s)) = Response ok (Some (Tasks ts))"
    and "ts \<noteq> []"
  shows "network s (calculateAndUpdateProjectProgress serve (Some i) s) =
     (let v = toFixed2 (completionProgress ts);
          w1 = snd (serve (GetTasks (Some i)) (backend s));
          r2 = fst (serve (PutProgress (Some i) v) w1);
          w2 = snd (serve (PutProgress (Some i) v) w1);
          r3 = fst (serve (GetTasks (Some i)) w2);
          w3 = snd (serve (GetTasks (Some i)) w2)
      in [Sent (GetTasks (Some i)), Received (Response ok (Some (Tasks ts))),
          Sent (PutProgress (Some i) v), Received r2,
          Sent (GetTasks (Some i)), Received r3] @
         (case r3 of
            Response ok' (Some (Tasks ts')) \<Rightarrow>
              [Sent (PutStatus (Some i) (projectStatus ts')),
               Received (fst (serve (PutStatus (Some i) (projectStatus ts')) w3))]
          | _ \<Rightarrow> []))"
  unfolding calculateAndUpdate_network [where serve=serve and s=s, OF assms]
  unfolding calculateAndUpdate_run [where serve=serve and s=s, OF assms]
  by (simp add: fetchTasks_network updateProjectProgress_network updateProjectStatus_network
      updateProjectProgress_backend fetchTasks_backend assms(1) Let_def
      split: reply.split option.split json.split)

text \<open>
  Weight 2 done of weight 4 in all: the progress \<open>50.00\<close> is sent and answered, then
  the status \<open>draft\<close>.
\<close>

theorem progress_put_then_status_put_witness:
  "network start (calculateAndUpdateProjectProgress
      (stub [mkTask ''done'' (Fin 2), mkTask ''draft'' (Fin 2)]) (Some 1) start) =
     [Sent (GetTasks (Some 1)),
      Received (Response True (Some (Tasks [mkTask ''done'' (Fin 2), mkTask ''draft'' (Fin 2)]))),
      Sent (PutProgress (Some 1) (Lit ''50.00'')), Received (Response True None),
      Sent (GetTasks (Some 1)),
      Received (Response True (Some (Tasks [mkTask ''done'' (Fin 2), mkTask ''draft'' (Fin 2)]))),
      Sent (PutStatus (Some 1) ''draft''), Received (Response True None)]"
  using progress_put_then_status_put [of "stub [mkTask ''done'' (Fin 2), mkTask ''draft'' (Fin 2)]"
      1 start True "[mkTask ''done'' (Fin 2), mkTask ''draft'' (Fin 2)]"] completion_half
  by (simp add: stub_def start_def projectStatus_def mkTask_def Let_def)

text \<open>
  C6. When the task list is empty, the only network event of
  \<open>calculateAndUpdateProjectProgress\<close> is the task query with its reply: no progress
  update and no status update goes out, and the backend is in the state the query left
  it in.
\<close>

theorem no_tasks_no_update:
  assumes "fst (serve (GetTasks (Some i)) (backend s)) = Response ok (Some (Tasks []))"
  shows "network s (calculateAndUpdateProjectProgress serve (Some i) s) =
           [Sent (GetTasks (Some i)), Received (Response ok (Some (Tasks [])))]
       \<and> backend (calculateAndUpdateProjectProgress serve (Some i) s) =
           snd (serve (GetTasks (Some i)) (backend s))"
  using assms
  by (simp add: calculateAndUpdateProjectProgress_def fetchTasks_Response events_emit backend_emit
      network_def since_def)

text \<open>The backend that keeps the updates it was sent has kept none.\<close>

theorem no_tasks_no_update_witness:
  "network start (calculateAndUpdateProjectProgress (stub []) (Some 1) start) =
     [Sent (GetTasks (Some 1)), Received (Response True (Some (Tasks [])))]
   \<and> backend (calculateAndUpdateProjectProgress (stub []) (Some 1) start) = []"
  using no_tasks_no_update [of "stub []" 1 start True]
  by (simp add: stub_def start_def)

section \<open>The task handlers\<close>

lemma submitTask_requests:
  assumes "fst (serve (PostTask p n st wt) (backend s)) = Response True b"
  shows "\<exists>s3. requests (since s (submitTask serve p n st wt s)) =
       PostTask p n st wt #
       requests (since s3 (calculateAndUpdateProjectProgress serve p s3)) @
       requests (since (calculateAndUpdateProjectProgress serve p s3)
          (updateProjectStatus serve p (calculateAndUpdateProjectProgress serve p s3)))"
proof -
  define s3 where "s3 = emit (ModalHide ''addTaskModal'') (emit LoadProjects
      (snd (fetch serve (PostTask p n st wt) s)))"
  let ?s4 = "calculateAndUpdateProjectProgress serve p s3"
  let ?s5 = "updateProjectStatus serve p ?s4"
  have run: "submitTask serve p n st wt s = ?s5"
    using assms by (simp add: submitTask_def fetch_eq s3_def)
  have e3: "events s3 = events s @ since s s3"
    and r3: "requests (since s s3) = [PostTask p n st wt]"
    by (simp_all add: s3_def fetch_eq events_emit since_def)
  have e4: "events ?s4 = events s @ since s ?s4"
    by (rule since_trans(1) [OF e3 calculateAndUpdate_grows_any])
  have "requests (since s ?s5) = requests (since s ?s4) @ requests (since ?s4 ?s5)"
    by (rule requests_trans [OF e4 updateProjectStatus_grows])
  also have "requests (since s ?s4) = requests (since s s3) @ requests (since s3 ?s4)"
    by (rule requests_trans [OF e3 calculateAndUpdate_grows_any])
  finally show ?thesis unfolding run by (auto simp: r3)
qed

lemma submitEditTask_requests:
  assumes "fst (serve (PutTask tid n st wt) (backend s)) = Response True b"
  shows "\<exists>s3. requests (since s (submitEditTask serve p tid n st wt s)) =
       PutTask tid n st wt #
       requests (since s3 (calculateAndUpdateProjectProgress serve p s3)) @
       requests (since (calculateAndUpdateProjectProgress serve p s3)
          (updateProjectStatus serve p (calculateAndUpdateProjectProgress serve p s3)))"
proof -
  define s3 where "s3 = emit (ModalHide ''editTaskModal'') (emit LoadProjects
      (snd (fetch serve (PutTask tid n st wt) s)))"
  let ?s4 = "calculateAndUpdateProjectProgress serve p s3"
  let ?s5 = "updateProjectStatus serve p ?s4"
  have run: "submitEditTask serve p tid n st wt s = ?s5"
    using assms by (simp add: submitEditTask_def fetch_eq s3_def)
  have e3: "events s3 = events s @ since s s3"
    and r3: "requests (since s s3) = [PutTask tid n st wt]"
    by (simp_all add: s3_def fetch_eq events_emit since_def)
  have e4: "events ?s4 = events s @ since s ?s4"
    by (rule since_trans(1) [OF e3 calculateAndUpdate_grows_any])
  have "requests (since s ?s5) = requests (since s ?s4) @ requests (since ?s4 ?s5)"
    by (rule requests_trans [OF e4 updateProjectStatus_grows])
  also have "requests (since s ?s4) = requests (since s s3) @ requests (since s3 ?s4)"
    by (rule requests_trans [OF e3 calculateAndUpdate_grows_any])
  finally show ?thesis unfolding run by (auto simp: r3)
qed

text \<open>
  C7. When the task list of the project is empty, \<open>updateProjectStatus\<close> queries the
  tasks and sends the status \<open>done\<close> (\<open>every\<close> holds of the empty list). The handlers
  for creating and for editing a task call it themselves, after the sync coordinator
  has done nothing: a project without tasks is set to \<open>done\<close>.
\<close>

theorem empty_project_set_done:
  assumes "\<forall>w. fst (serve (GetTasks (Some i)) w) = Response ok (Some (Tasks []))"
    and "fst (serve (PostTask (Some i) n st wt) (backend s)) = Response True b"
    and "fst (serve (PutTask tid n st wt) (backend s)) = Response True b'"
  shows "requests (since s (updateProjectStatus serve (Some i) s)) =
       [GetTasks (Some i), PutStatus (Some i) ''done'']
     \<and> requests (since s (submitTask serve (Some i) n st wt s)) =
       [PostTask (Some i) n st wt, GetTasks (Some i),
        GetTasks (Some i), PutStatus (Some i) ''done'']
     \<and> requests (since s (submitEditTask serve (Some i) tid n st wt s)) =
       [PutTask tid n st wt, GetTasks (Some i),
        GetTasks (Some i), PutStatus (Some i) ''done'']"
proof -
  have any: "fst (serve (GetTasks (Some i)) (backend x)) = Response ok (Some (Tasks []))"
    for x :: "'a sys"
    using assms(1) by simp
  have cu: "requests (since x (calculateAndUpdateProjectProgress serve (Some i) x)) =
     [GetTasks (Some i)]" for x :: "'a sys"
    using any by (rule calculateAndUpdate_requests_empty)
  have us: "requests (since x (updateProjectStatus serve (Some i) x)) =
     [GetTasks (Some i), PutStatus (Some i) ''done'']" for x :: "'a sys"
    using updateProjectStatus_requests [where serve=serve, OF any] by (simp add: projectStatus_def)
  show ?thesis
    using submitTask_requests [where serve=serve and s=s, OF assms(2)]
      submitEditTask_requests [where serve=serve and s=s and p="Some i", OF assms(3)]
    by (auto simp: cu us)
qed

text \<open>
  Editing task 7 while \<open>currentProjectId\<close> is project 1, which has no tasks: the
  edit is followed by the status \<open>done\<close> for project 1.
\<close>

theorem empty_project_set_done_witness:
  "(\<forall>w. fst (stub [] (GetTasks (Some 1)) w) = Response True (Some (Tasks [])))
   \<and> requests (since start (submitEditTask (stub []) (Some 1) (Some 7) ''t'' ''draft'' ''2'' start)) =
       [PutTask (Some 7) ''t'' ''draft'' ''2'', GetTasks (Some 1),
        GetTasks (Some 1), PutStatus (Some 1) ''done'']
   \<and> requests (since start (submitTask (stub []) (Some 1) ''t'' ''draft'' ''2'' start)) =
       [PostTask (Some 1) ''t'' ''draft'' ''2'', GetTasks (Some 1),
        GetTasks (Some 1), PutStatus (Some 1) ''done'']"
  using empty_project_set_done [of "stub []" 1 True "''t''" "''draft''" "''2''" start None "Some 7" None]
  by (simp add: stub_def start_def)

text \<open>
  C8. The claim is that each of the four mutations checks its required text fields and
  sends nothing when one is empty. The two project handlers do; the two task handlers
  have no check. With every field empty the task handler posts the task all the same,
  where the project handler only alerts.
\<close>

theorem task_posted_with_empty_fields:
  "take 1 (requests (since start (submitTask (stub []) (Some 1) [] [] [] start))) =
     [PostTask (Some 1) [] [] []]
   \<and> take 1 (requests (since start (submitEditTask (stub []) (Some 1) (Some 7) [] [] [] start))) =
     [PutTask (Some 7) [] [] []]
   \<and> since start (submitProject (stub []) [] start) = [Alert ''Please fill in all fields.'']
   \<and> since start (submitEditProject (stub []) (Some 1) [] start) =
     [Alert ''Please fill in all fields.'']"
  by (simp add: submitTask_def submitEditTask_def submitProject_def submitEditProject_def
      fetch_eq stub_def start_def events_emit since_def
      calculateAndUpdateProjectProgress_def updateProjectStatus_def fetchTasks_eq projectStatus_def)

subsection \<open>A handler on its own\<close>

text \<open>
  Running the process of a function on its own is the function: the handlers
  \<open>submitTask\<close> and \<open>submitEditTask\<close> are the awaited chains of the click handlers.
\<close>

lemma run_updateProjectProgressP:
  "run serve (updateProjectProgressP p v k) s = run serve k (updateProjectProgress serve p v s)"
  by (simp add: updateProjectProgressP_def updateProjectProgress_def fetch_eq split: reply.split)

lemma run_updateProjectStatusP:
  "run serve (updateProjectStatusP p k) s = run serve k (updateProjectStatus serve p s)"
  by (simp add: updateProjectStatusP_def fetchTasksP_def updateProjectStatus_def fetchTasks_eq fetch_eq
      split: reply.split option.split json.split)

lemma run_calculateAndUpdateP:
  "run serve (calculateAndUpdateProjectProgressP p k) s =
     run serve k (calculateAndUpdateProjectProgress serve p s)"
  by (simp add: calculateAndUpdateProjectProgressP_def calculateAndLogProjectProgressP_def
      fetchTasksP_def calculateAndUpdateProjectProgress_def fetchTasks_eq fetch_eq
      run_updateProjectProgressP run_updateProjectStatusP
      split: reply.split option.split json.split)

lemma run_calculateProjectProgressP:
  "run serve (calculateProjectProgressP p k) s =
     run serve k (snd (calculateProjectProgress serve p s))"
  by (simp add: calculateProjectProgressP_def fetchTasksP_def calculateProjectProgress_def
      fetchTasks_eq fetch_eq split: reply.split option.split json.split)


lemma submitTask_run:
  "submitTask serve pid n st wt s =
     (case fetch serve (PostTask pid n st wt) s of
        (NetworkError, s1) \<Rightarrow>
          emit (Alert ''Error adding task.'') (emit (ConsoleError ''Error adding task:'') s1)
      | (Response ok b, s1) \<Rightarrow>
          if ok then run serve (refreshP pid) (emit (ModalHide ''addTaskModal'') (emit LoadProjects s1))
          else emit (Alert ''Error adding task.'') s1)"
  by (simp add: submitTask_def refreshP_def run_calculateAndUpdateP run_updateProjectStatusP
      split: reply.split prod.split)

lemma submitEditTask_run:
  "submitEditTask serve pid tid n st wt s =
     (case fetch serve (PutTask tid n st wt) s of
        (NetworkError, s1) \<Rightarrow>
          emit (Alert ''Error editing task.'') (emit (ConsoleError ''Error editing task:'') s1)
      | (Response ok b, s1) \<Rightarrow>
          if ok then run serve (refreshP pid) (emit (ModalHide ''editTaskModal'') (emit LoadProjects s1))
          else emit (Alert ''Error editing task.'') s1)"
  by (simp add: submitEditTask_def refreshP_def run_calculateAndUpdateP run_updateProjectStatusP
      split: reply.split prod.split)

subsection \<open>Two functions under way\<close>
































section \<open>Reordering the tasks\<close>

lemma totalNat_mset:
  assumes "mset ts' = mset ts"
  shows "totalNat ts' = totalNat ts"
proof -
  have "mset (map (\<lambda>t. natWeight (weight t)) ts') = mset (map (\<lambda>t. natWeight (weight t)) ts)"
    using assms by simp
  then have "sum_mset (mset (map (\<lambda>t. natWeight (weight t)) ts')) =
             sum_mset (mset (map (\<lambda>t. natWeight (weight t)) ts))"
    by (simp only:)
  then show ?thesis by (simp only: sum_mset_sum_list totalNat_def)
qed

lemma sumWeights_perm:
  assumes "mset ts' = mset ts"
    and "list_all (\<lambda>t. isNat (weight t)) ts" and "totalNat ts < 2 ^ 53"
  shows "sumWeights ts' = sumWeights ts"
proof -
  have set_eq: "set ts' = set ts" using assms(1) by (rule mset_eq_setD)
  have all': "list_all (\<lambda>t. isNat (weight t)) ts'"
    using assms(2) by (simp add: list_all_iff set_eq)
  have tot': "totalNat ts' = totalNat ts" using assms(1) by (rule totalNat_mset)
  have "mset (filter (\<lambda>t. status t = ''done'') ts') = mset (filter (\<lambda>t. status t = ''done'') ts)"
    using assms(1) by (simp only: mset_filter)
  then have done': "totalNat (filter (\<lambda>t. status t = ''done'') ts') =
                    totalNat (filter (\<lambda>t. status t = ''done'') ts)"
    by (rule totalNat_mset)
  show ?thesis
    using sumWeights_nat [OF all'] sumWeights_nat [OF assms(2,3)] assms(3)
    by (simp add: tot' done')
qed

lemma progress_order_a:
  "fst (calculateProjectProgress
      (stub [mkTask ''draft'' (fl (2 / 5)), mkTask ''draft'' (fl (5 / 2)),
             mkTask ''done'' (fl (3 / 10))])
      (Some 1) start) = PStr (Lit ''9.38'')"
  by code_simp

lemma progress_order_b:
  "fst (calculateProjectProgress
      (stub [mkTask ''draft'' (fl (2 / 5)), mkTask ''done'' (fl (3 / 10)),
             mkTask ''draft'' (fl (5 / 2))])
      (Some 1) start) = PStr (Lit ''9.37'')"
  by code_simp

text \<open>
  C10. The claim is that \<open>calculateProjectProgress\<close> returns the same result for every
  reordering of the task list. Sums of doubles depend on the order: with the weights
  0.4, 2.5 (both draft) and 0.3 (done), the total is 3.1999999999999997 in this order
  and the result is \<open>9.38\<close>; with 0.4, 0.3, 2.5 the total is 3.2 and the result is
  \<open>9.37\<close>.
\<close>

theorem progress_depends_on_order:
  "mset [mkTask ''draft'' (fl (2 / 5)), mkTask ''done'' (fl (3 / 10)), mkTask ''draft'' (fl (5 / 2))] =
   mset [mkTask ''draft'' (fl (2 / 5)), mkTask ''draft'' (fl (5 / 2)), mkTask ''done'' (fl (3 / 10))]
   \<and> fst (calculateProjectProgress
        (stub [mkTask ''draft'' (fl (2 / 5)), mkTask ''draft'' (fl (5 / 2)),
               mkTask ''done'' (fl (3 / 10))])
        (Some 1) start) = PStr (Lit ''9.38'')
   \<and> fst (calculateProjectProgress
        (stub [mkTask ''draft'' (fl (2 / 5)), mkTask ''done'' (fl (3 / 10)),
               mkTask ''draft'' (fl (5 / 2))])
        (Some 1) start) = PStr (Lit ''9.37'')"
  using progress_order_a progress_order_b by (simp add: add_mset_commute)

text \<open>
  C10, as amended. When the weights are natural numbers whose sum is below \<open>2^53\<close>,
  every sum the loop forms is exact, and \<open>calculateProjectProgress\<close> returns the same
  result for every reordering of the task list.
\<close>

theorem progress_order_invariant_nat:
  assumes "fst (serve (GetTasks p) (backend s)) = Response ok (Some (Tasks ts))"
    and "fst (serve' (GetTasks p') (backend s')) = Response ok' (Some (Tasks ts'))"
    and "mset ts' = mset ts"
    and "list_all (\<lambda>t. isNat (weight t)) ts" and "totalNat ts < 2 ^ 53"
  shows "fst (calculateProjectProgress serve' p' s') = fst (calculateProjectProgress serve p s)"
proof -
  have "ts' = [] \<longleftrightarrow> ts = []" using assms(3) by (metis mset_zero_iff)
  then show ?thesis
    using assms(1,2) sumWeights_perm [OF assms(3,4,5)]
    by (simp add: calculateProjectProgress_Tasks completionProgress_def)
qed

theorem progress_order_invariant_nat_witness:
  "mset [mkTask ''draft'' (Fin 2), mkTask ''done'' (Fin 2)] =
     mset [mkTask ''done'' (Fin 2), mkTask ''draft'' (Fin 2)]
   \<and> list_all (\<lambda>t. isNat (weight t)) [mkTask ''done'' (Fin 2), mkTask ''draft'' (Fin 2)]
   \<and> totalNat [mkTask ''done'' (Fin 2), mkTask ''draft'' (Fin 2)] < 2 ^ 53
   \<and> fst (calculateProjectProgress (stub [mkTask ''draft'' (Fin 2), mkTask ''done'' (Fin 2)])
        (Some 1) start) =
     fst (calculateProjectProgress (stub [mkTask ''done'' (Fin 2), mkTask ''draft'' (Fin 2)])
        (Some 1) start)"
  using progress_order_invariant_nat [of "stub [mkTask ''done'' (Fin 2), mkTask ''draft'' (Fin 2)]"
      "Some 1" start True "[mkTask ''done'' (Fin 2), mkTask ''draft'' (Fin 2)]"
      "stub [mkTask ''draft'' (Fin 2), mkTask ''done'' (Fin 2)]" "Some 1" start True
      "[mkTask ''draft'' (Fin 2), mkTask ''done'' (Fin 2)]"]
  by (simp add: stub_def add_mset_commute isNat_def natWeight_def totalNat_def mkTask_def)

end
